theory Spec2Isabelle
  imports Complex_Main
begin

section \<open>Sliding-window rate limiter (utils/rate\_limiter.py)\<close>

text \<open>
  The class \<^verbatim>\<open>RateLimiter\<close> holds its two parameters, a \<^verbatim>\<open>defaultdict(deque)\<close> from
  user ids to queues of admission timestamps, and the bookkeeping of the periodic sweep.
  The readings of \<^verbatim>\<open>time.time()\<close> are Python floats; they are idealised as reals and
  every operation that reads the clock takes the reading as an argument.  A queue is
  the list of its timestamps, oldest first.  The dictionary is a partial map; a key
  bound to the empty list is an entry that exists and holds an empty deque.
\<close>

record RateLimiter =
  max_requests :: int
  time_window :: int
  user_requests :: "int \<rightharpoonup> real list"
  last_cleanup :: real
  cleanup_interval :: int

text \<open>\<^verbatim>\<open>__init__\<close>: the clock is read once, for \<^verbatim>\<open>last_cleanup\<close>.\<close>

definition RateLimiter_init :: "int \<Rightarrow> int \<Rightarrow> real \<Rightarrow> RateLimiter" where
  "RateLimiter_init mr tw t0 =
     \<lparr> max_requests = mr, time_window = tw, user_requests = Map.empty,
       last_cleanup = t0, cleanup_interval = 300 \<rparr>"

text \<open>
  \<^verbatim>\<open>self.user_requests[user_id]\<close> on a \<^verbatim>\<open>defaultdict\<close>: a missing key is inserted with
  an empty deque, which is then returned.
\<close>

definition dd_getitem :: "(int \<rightharpoonup> real list) \<Rightarrow> int \<Rightarrow> (int \<rightharpoonup> real list) \<times> real list" where
  "dd_getitem m k = (case m k of None \<Rightarrow> (m(k \<mapsto> []), []) | Some q \<Rightarrow> (m, q))"

text \<open>
  The loop \<^verbatim>\<open>while queue and queue[0] < cutoff_time: queue.popleft()\<close>.
\<close>

fun evict :: "real \<Rightarrow> real list \<Rightarrow> real list" where
  "evict cutoff [] = []"
| "evict cutoff (t # ts) = (if t < cutoff then evict cutoff ts else t # ts)"

text \<open>
  \<^verbatim>\<open>_cleanup_if_needed\<close>: the sweep runs over every entry of the dictionary, evicts in
  place, collects the keys whose queue became empty and deletes them afterwards.
\<close>

definition cleanup_if_needed :: "RateLimiter \<Rightarrow> real \<Rightarrow> RateLimiter" where
  "cleanup_if_needed s current_time =
     (if current_time - last_cleanup s < real_of_int (cleanup_interval s) then s
      else
        let cutoff_time = current_time - real_of_int (time_window s) in
        s\<lparr> user_requests :=
             (\<lambda>user_id. case user_requests s user_id of
                           None \<Rightarrow> None
                         | Some queue \<Rightarrow>
                             (let queue' = evict cutoff_time queue
                              in if queue' = [] then None else Some queue')),
           last_cleanup := current_time \<rparr>)"

text \<open>
  \<^verbatim>\<open>is_allowed\<close>: the queue fetched from the dictionary is the stored object itself, so
  the evictions and the append are written back under the same key.
\<close>

definition is_allowed :: "RateLimiter \<Rightarrow> int \<Rightarrow> real \<Rightarrow> bool \<times> RateLimiter" where
  "is_allowed s user_id current_time =
     (let s1 = cleanup_if_needed s current_time;
          (m, user_queue) = dd_getitem (user_requests s1) user_id;
          cutoff_time = current_time - real_of_int (time_window s1);
          user_queue' = evict cutoff_time user_queue;
          current_count = int (length user_queue')
      in if current_count < max_requests s1
         then (True, s1\<lparr> user_requests := m(user_id \<mapsto> user_queue' @ [current_time]) \<rparr>)
         else (False, s1\<lparr> user_requests := m(user_id \<mapsto> user_queue') \<rparr>))"

text \<open>Python's \<^verbatim>\<open>int(x)\<close> on a float truncates towards zero.\<close>

definition py_int :: "real \<Rightarrow> int" where
  "py_int x = (if 0 \<le> x then \<lfloor>x\<rfloor> else \<lceil>x\<rceil>)"

text \<open>
  \<^verbatim>\<open>get_wait_time\<close>: the lookup goes through the \<^verbatim>\<open>defaultdict\<close> as well.  The read
  \<^verbatim>\<open>user_queue[0]\<close> is reached only with a non-empty queue, where it is the head.
\<close>

definition get_wait_time :: "RateLimiter \<Rightarrow> int \<Rightarrow> real \<Rightarrow> int \<times> RateLimiter" where
  "get_wait_time s user_id current_time =
     (let (m, user_queue) = dd_getitem (user_requests s) user_id;
          s' = s\<lparr> user_requests := m \<rparr>
      in if user_queue = [] \<or> int (length user_queue) < max_requests s' then (0, s')
         else
           let oldest_request = hd user_queue;
               wait_time = py_int (real_of_int (time_window s') - (current_time - oldest_request))
           in (max 0 wait_time, s'))"

text \<open>\<^verbatim>\<open>reset_user\<close>: the membership test does not create an entry.\<close>

definition reset_user :: "RateLimiter \<Rightarrow> int \<Rightarrow> RateLimiter" where
  "reset_user s user_id =
     (if user_requests s user_id \<noteq> None
      then s\<lparr> user_requests := (user_requests s)(user_id := None) \<rparr>
      else s)"

text \<open>The operations of the class, and a run of them from a given state.\<close>

datatype rl_op =
    IsAllowed int real
  | GetWaitTime int real
  | ResetUser int
  | CleanupIfNeeded real

fun apply_rl_op :: "RateLimiter \<Rightarrow> rl_op \<Rightarrow> RateLimiter" where
  "apply_rl_op s (IsAllowed u t) = snd (is_allowed s u t)"
| "apply_rl_op s (GetWaitTime u t) = snd (get_wait_time s u t)"
| "apply_rl_op s (ResetUser u) = reset_user s u"
| "apply_rl_op s (CleanupIfNeeded t) = cleanup_if_needed s t"

fun run_rl_ops :: "RateLimiter \<Rightarrow> rl_op list \<Rightarrow> RateLimiter" where
  "run_rl_ops s [] = s"
| "run_rl_ops s (x # xs) = run_rl_ops (apply_rl_op s x) xs"

text \<open>The timestamps held for an identity: none when it has no entry.\<close>

definition queue_of :: "RateLimiter \<Rightarrow> int \<Rightarrow> real list" where
  "queue_of s u = (case user_requests s u of None \<Rightarrow> [] | Some q \<Rightarrow> q)"

text \<open>
  A sequence of \<^verbatim>\<open>is_allowed\<close> calls, each with the calling identity and the clock
  reading of the call; the result lists the readings of the calls of identity \<open>u\<close>
  that returned true.
\<close>

fun admitted :: "RateLimiter \<Rightarrow> int \<Rightarrow> (int \<times> real) list \<Rightarrow> real list" where
  "admitted s u [] = []"
| "admitted s u ((v, t) # calls) =
     (let (ok, s') = is_allowed s v t
      in (if ok \<and> v = u then [t] else []) @ admitted s' u calls)"

text \<open>
  The property of a list of admission times that no closed interval of length \<open>W\<close>
  holds more than \<open>mr\<close> of them, and the bound on every stored queue.
\<close>

definition window_ok :: "int \<Rightarrow> real \<Rightarrow> real list \<Rightarrow> bool" where
  "window_ok mr W A \<longleftrightarrow>
     (\<forall>a. int (length (filter (\<lambda>x. a \<le> x \<and> x \<le> a + W) A)) \<le> mr)"

definition queues_bounded :: "RateLimiter \<Rightarrow> bool" where
  "queues_bounded s \<longleftrightarrow> (\<forall>u. int (length (queue_of s u)) \<le> max_requests s)"

section \<open>Chat-completion client (utils/openai\_client.py)\<close>

subsection \<open>Python string operations\<close>

text \<open>
  A string is a sequence of code points below 256, one \<open>char\<close> each.  On these,
  \<^verbatim>\<open>str.lower\<close> maps the letters A to Z (codes 65 to 90) and the capital letters of
  the upper half (codes 192 to 222 without the multiplication sign 215) to their
  small forms, 32 above, by setting bit 5, and leaves the rest; \<^verbatim>\<open>str.strip\<close> removes
  from both ends the characters for which \<^verbatim>\<open>str.isspace\<close> holds: the codes 9 to 13,
  28 to 31 and 32, the next-line control 133 (U+0085) and the no-break space 160
  (U+00A0); \<^verbatim>\<open>needle in hay\<close> is the substring test.
\<close>

fun lower_char :: "char \<Rightarrow> char" where
  "lower_char (Char b0 b1 b2 b3 b4 b5 b6 b7) =
     (let n = (of_char (Char b0 b1 b2 b3 b4 b5 b6 b7) :: nat)
      in if (65 \<le> n \<and> n \<le> 90) \<or> (192 \<le> n \<and> n \<le> 222 \<and> n \<noteq> 215)
         then Char b0 b1 b2 b3 b4 True b6 b7
         else Char b0 b1 b2 b3 b4 b5 b6 b7)"

definition py_lower :: "string \<Rightarrow> string" where
  "py_lower s = map lower_char s"

definition is_space :: "char \<Rightarrow> bool" where
  "is_space c = ((of_char c :: nat) \<in> {9, 10, 11, 12, 13, 28, 29, 30, 31, 32, 133, 160})"

definition py_strip :: "string \<Rightarrow> string" where
  "py_strip s = rev (dropWhile is_space (rev (dropWhile is_space s)))"

fun startswith :: "string \<Rightarrow> string \<Rightarrow> bool" where
  "startswith s [] = True"
| "startswith [] (p # ps) = False"
| "startswith (c # cs) (p # ps) = (c = p \<and> startswith cs ps)"

fun py_in :: "string \<Rightarrow> string \<Rightarrow> bool" where
  "py_in needle [] = (needle = [])"
| "py_in needle (c # cs) = (startswith (c # cs) needle \<or> py_in needle cs)"

subsection \<open>The client and its messages\<close>

datatype py_error = ValueError string

record OpenAIClient =
  model :: string
  max_tokens :: int
  temperature :: real
  max_retries :: int
  retry_delay :: int

text \<open>\<^verbatim>\<open>__init__\<close>: an empty key or one without the prefix \<^verbatim>\<open>sk-\<close> raises.\<close>

definition OpenAIClient_init :: "string \<Rightarrow> string \<Rightarrow> int \<Rightarrow> real \<Rightarrow> py_error + OpenAIClient" where
  "OpenAIClient_init api_key mdl mt temp =
     (if api_key = [] \<or> \<not> startswith api_key ''sk-''
      then Inl (ValueError ''Invalid OpenAI API key format'')
      else Inr \<lparr> model = mdl, max_tokens = mt, temperature = temp,
                 max_retries = 3, retry_delay = 1 \<rparr>)"

text \<open>
  A message is a Python object: a dictionary from strings to values (an association
  list, looked up with \<open>map_of\<close>) or something that is not a dictionary; a value is a
  string or some other hashable object.
\<close>

datatype pyval = Str string | NonStr

datatype pyobj = Dict "(string \<times> pyval) list" | NonDict

definition valid_roles :: "pyval set" where
  "valid_roles = {Str ''system'', Str ''user'', Str ''assistant''}"

text \<open>
  \<^verbatim>\<open>_validate_messages\<close>: the argument is a list, so the first \<^verbatim>\<open>isinstance\<close> test
  holds; the loop returns at the first entry that fails a check.
\<close>

fun validate_messages :: "pyobj list \<Rightarrow> bool" where
  "validate_messages [] = True"
| "validate_messages (NonDict # rest) = False"
| "validate_messages (Dict msg # rest) =
     (case map_of msg ''role'' of
        None \<Rightarrow> False
      | Some role \<Rightarrow>
          (case map_of msg ''content'' of
             None \<Rightarrow> False
           | Some content \<Rightarrow>
               if role \<notin> valid_roles then False
               else (case content of
                       NonStr \<Rightarrow> False
                     | Str text \<Rightarrow>
                         if py_strip text = [] then False
                         else validate_messages rest)))"

text \<open>
  One pass through the body of the \<^verbatim>\<open>try\<close> block either yields the content of the
  first choice or raises an exception, of which the handler reads only \<^verbatim>\<open>str(e)\<close>.
  The remote service is a function from the number of calls made so far to the
  outcome of the next call.  The effects of a call of \<^verbatim>\<open>get_chat_response\<close> are the
  number of calls of the completion endpoint and the arguments of \<^verbatim>\<open>time.sleep\<close>,
  in order.
\<close>

datatype api_outcome = Content string | Raises string

record effects =
  api_calls :: nat
  sleeps :: "int list"

definition no_effects :: effects where
  "no_effects = \<lparr> api_calls = 0, sleeps = [] \<rparr>"

text \<open>
  The \<^verbatim>\<open>if\<close>/\<^verbatim>\<open>elif\<close> chain of the exception handler, on the lower-cased message,
  in the order of the source.
\<close>

datatype error_class = RateLimit | InvalidRequest | Authentication | Timeout | Other

definition classify :: "string \<Rightarrow> error_class" where
  "classify e =
     (let error_str = py_lower e
      in if py_in ''rate'' error_str \<or> py_in ''429'' error_str then RateLimit
         else if py_in ''invalid'' error_str \<or> py_in ''400'' error_str then InvalidRequest
         else if py_in ''auth'' error_str \<or> py_in ''401'' error_str then Authentication
         else if py_in ''timeout'' error_str \<or> py_in ''timed out'' error_str then Timeout
         else Other)"

type_synonym response = "bool \<times> string \<times> string"

text \<open>
  The loop \<^verbatim>\<open>for attempt in range(self.max_retries)\<close>, on the attempts still to run.
  \<^verbatim>\<open>continue\<close> is the recursive call; every other branch returns.
\<close>

fun retry_loop ::
  "OpenAIClient \<Rightarrow> (nat \<Rightarrow> api_outcome) \<Rightarrow> nat list \<Rightarrow> effects \<Rightarrow> response \<times> effects" where
  "retry_loop c api [] eff =
     ((False, [], ''Service temporarily unavailable after multiple attempts''), eff)"
| "retry_loop c api (attempt # rest) eff =
     (let eff1 = eff\<lparr> api_calls := api_calls eff + 1 \<rparr>
      in case api (api_calls eff) of
           Content text \<Rightarrow>
             (let response_text = py_strip text
              in if response_text = [] then ((False, [], ''Empty response from OpenAI''), eff1)
                 else ((True, response_text, []), eff1))
         | Raises e \<Rightarrow>
             (case classify e of
                RateLimit \<Rightarrow>
                  if int attempt < max_retries c - 1
                  then retry_loop c api rest
                         (eff1\<lparr> sleeps := sleeps eff1 @ [retry_delay c * (int attempt + 1)] \<rparr>)
                  else ((False, [], ''Rate limit exceeded. Please try again later.''), eff1)
              | InvalidRequest \<Rightarrow> ((False, [], ''Invalid request to AI service''), eff1)
              | Authentication \<Rightarrow> ((False, [], ''Authentication failed''), eff1)
              | Timeout \<Rightarrow>
                  if int attempt < max_retries c - 1
                  then retry_loop c api rest
                         (eff1\<lparr> sleeps := sleeps eff1 @ [retry_delay c * 2 * (int attempt + 1)] \<rparr>)
                  else ((False, [], ''Request timed out. Please try again.''), eff1)
              | Other \<Rightarrow>
                  if int attempt < max_retries c - 1
                  then retry_loop c api rest
                         (eff1\<lparr> sleeps := sleeps eff1 @ [retry_delay c * (int attempt + 1)] \<rparr>)
                  else ((False, [], ''AI service temporarily unavailable''), eff1)))"

definition get_chat_response ::
  "OpenAIClient \<Rightarrow> pyobj list \<Rightarrow> (nat \<Rightarrow> api_outcome) \<Rightarrow> response \<times> effects" where
  "get_chat_response c messages api =
     (if messages = [] then ((False, [], ''No messages provided''), no_effects)
      else if \<not> validate_messages messages
      then ((False, [], ''Invalid message format''), no_effects)
      else retry_loop c api [0..<nat (max_retries c)] no_effects)"

text \<open>
  The classes that the handler retries, the argument it passes to \<^verbatim>\<open>time.sleep\<close>
  after a failure of a class at a 0-based attempt, and the message it returns when
  the failing attempt was the last one.
\<close>

definition transient :: "error_class \<Rightarrow> bool" where
  "transient k \<longleftrightarrow> k = RateLimit \<or> k = Timeout \<or> k = Other"

definition backoff :: "OpenAIClient \<Rightarrow> error_class \<Rightarrow> nat \<Rightarrow> int" where
  "backoff c k attempt =
     (if k = Timeout then retry_delay c * 2 * (int attempt + 1)
      else retry_delay c * (int attempt + 1))"

definition exhausted_message :: "error_class \<Rightarrow> string" where
  "exhausted_message k =
     (if k = RateLimit then ''Rate limit exceeded. Please try again later.''
      else if k = Timeout then ''Request timed out. Please try again.''
      else ''AI service temporarily unavailable'')"

text \<open>
  The schedule as the specification words it, for the 1-based number \<open>n\<close> of the
  failing attempt: \<open>retry_delay \<times> n\<close>, doubled for a timeout.
\<close>

definition spec_backoff :: "int \<Rightarrow> error_class \<Rightarrow> nat \<Rightarrow> int" where
  "spec_backoff rd k n = (if k = Timeout then 2 * rd * int n else rd * int n)"

text \<open>
  The violations of the preconditions as the specification words them: the sequence
  is empty, some entry has no role among the three, or the content of some entry is
  empty after trimming.
\<close>

definition lacks_valid_role :: "pyobj \<Rightarrow> bool" where
  "lacks_valid_role m =
     (case m of
        NonDict \<Rightarrow> True
      | Dict kvs \<Rightarrow> (case map_of kvs ''role'' of None \<Rightarrow> True | Some r \<Rightarrow> r \<notin> valid_roles))"

definition content_blank :: "pyobj \<Rightarrow> bool" where
  "content_blank m =
     (case m of
        NonDict \<Rightarrow> False
      | Dict kvs \<Rightarrow>
          (case map_of kvs ''content'' of Some (Str body) \<Rightarrow> py_strip body = [] | _ \<Rightarrow> False))"

definition violates_preconditions :: "pyobj list \<Rightarrow> bool" where
  "violates_preconditions messages \<longleftrightarrow>
     messages = [] \<or> list_ex lacks_valid_role messages \<or> list_ex content_blank messages"

section \<open>Message handler (bot.py)\<close>

text \<open>
  The file \<^verbatim>\<open>bot.py\<close> holds the module twice, a newer text followed by an older one;
  the model follows the first, whose handler calls \<^verbatim>\<open>get_chat_response\<close> and tests
  its success flag.  The handler reads one field of the configuration, keeps the
  conversation contexts in the module-level dictionary \<^verbatim>\<open>user_contexts\<close> and owns one
  \<^verbatim>\<open>RateLimiter()\<close> with the default parameters.  Handlers run one after the other:
  a state goes in, the state after the handler returned comes out, together with
  what was sent to the channel.  The texts sent are kept as constructors holding the
  values formatted into them.
\<close>

record BotConfig =
  max_context_length :: int

record message =
  author_id :: int
  author_is_bot :: bool
  content :: string

record bot_state =
  rate_limiter :: RateLimiter
  user_contexts :: "int \<rightharpoonup> pyobj list"

datatype outbound =
    WaitNotice int
  | ErrorText string
  | Reply string
  | Pong
  | ContextCleared

definition bot_init :: "real \<Rightarrow> bot_state" where
  "bot_init t0 = \<lparr> rate_limiter = RateLimiter_init 10 60 t0, user_contexts = Map.empty \<rparr>"

definition user_message :: "string \<Rightarrow> pyobj" where
  "user_message text = Dict [(''role'', Str ''user''), (''content'', Str text)]"

definition assistant_message :: "string \<Rightarrow> pyobj" where
  "assistant_message text = Dict [(''role'', Str ''assistant''), (''content'', Str text)]"

text \<open>
  The slice \<^verbatim>\<open>xs[-n:]\<close>: the last \<open>n\<close> elements for a positive \<open>n\<close>; for \<open>n = 0\<close> it is
  \<^verbatim>\<open>xs[0:]\<close>, the whole list, and for a negative \<open>n\<close> it is \<^verbatim>\<open>xs[k:]\<close> with \<open>k = -n\<close>.
\<close>

definition py_last :: "int \<Rightarrow> 'a list \<Rightarrow> 'a list" where
  "py_last n xs = (if 0 < n then drop (length xs - nat n) xs else drop (nat (- n)) xs)"

text \<open>
  The two places where the handler appends to the context of a user: the user
  message followed by the truncation, and the reply.
\<close>

definition add_user_message :: "BotConfig \<Rightarrow> pyobj list \<Rightarrow> string \<Rightarrow> pyobj list" where
  "add_user_message cfg history cleaned_text =
     (let history1 = history @ [user_message cleaned_text];
          max_messages = max_context_length cfg * 2
      in if int (length history1) > max_messages then py_last max_messages history1
         else history1)"

definition add_ai_response :: "pyobj list \<Rightarrow> string \<Rightarrow> pyobj list" where
  "add_ai_response history response_text = history @ [assistant_message response_text]"

text \<open>
  The commands.  Which command a text invokes is decided by the framework and is a
  parameter: it gives the name of the invoked command, if any.
\<close>

definition clear_context :: "bot_state \<Rightarrow> int \<Rightarrow> bot_state \<times> outbound list" where
  "clear_context st user_id =
     ((if user_contexts st user_id \<noteq> None
       then st\<lparr> user_contexts := (user_contexts st)(user_id \<mapsto> []) \<rparr> else st),
      [ContextCleared])"

definition process_commands ::
  "(string \<Rightarrow> string option) \<Rightarrow> bot_state \<Rightarrow> message \<Rightarrow> bot_state \<times> outbound list" where
  "process_commands invoked st m =
     (case invoked (content m) of
        None \<Rightarrow> (st, [])
      | Some name \<Rightarrow>
          if name = ''ping'' then (st, [Pong])
          else if name = ''clear'' then clear_context st (author_id m)
          else (st, []))"

text \<open>
  An inbound event: the message, the clock readings of \<^verbatim>\<open>is_allowed\<close> and of
  \<^verbatim>\<open>get_wait_time\<close>, and the behaviour of the remote service during the turn.
\<close>

record inbound =
  msg :: message
  t_allowed :: real
  t_wait :: real
  service :: "nat \<Rightarrow> api_outcome"

text \<open>
  \<^verbatim>\<open>on_message\<close>.  The validator of \<^verbatim>\<open>utils/validators.py\<close> is a parameter: it
  returns the verdict, the cleaned text and an error text.
\<close>

definition on_message ::
  "BotConfig \<Rightarrow> OpenAIClient \<Rightarrow> (string \<Rightarrow> bool \<times> string \<times> string) \<Rightarrow>
   (string \<Rightarrow> string option) \<Rightarrow> bot_state \<Rightarrow> inbound \<Rightarrow> bot_state \<times> outbound list" where
  "on_message cfg client validate_message invoked st ev =
     (let m = msg ev in
      if author_is_bot m then (st, [])
      else if startswith (content m) ''!'' then process_commands invoked st m
      else
        let (allowed, rl1) = is_allowed (rate_limiter st) (author_id m) (t_allowed ev) in
        if \<not> allowed then
          let (wait_time, rl2) = get_wait_time rl1 (author_id m) (t_wait ev)
          in (st\<lparr> rate_limiter := rl2 \<rparr>, [WaitNotice wait_time])
        else
          let st1 = st\<lparr> rate_limiter := rl1 \<rparr>;
              (is_valid, cleaned_text, error) = validate_message (content m)
          in if \<not> is_valid then (st1, [ErrorText error])
             else
               let user_id = author_id m;
                   history0 = (case user_contexts st1 user_id of None \<Rightarrow> [] | Some h \<Rightarrow> h);
                   history = add_user_message cfg history0 cleaned_text;
                   st2 = st1\<lparr> user_contexts := (user_contexts st1)(user_id \<mapsto> history) \<rparr>;
                   ((success, response_text, error_message), eff) =
                      get_chat_response client history (service ev)
               in if \<not> success then (st2, [ErrorText error_message])
                  else
                    (st2\<lparr> user_contexts :=
                            (user_contexts st2)(user_id \<mapsto> add_ai_response history response_text) \<rparr>,
                     [Reply response_text]))"

fun run_bot ::
  "BotConfig \<Rightarrow> OpenAIClient \<Rightarrow> (string \<Rightarrow> bool \<times> string \<times> string) \<Rightarrow>
   (string \<Rightarrow> string option) \<Rightarrow> bot_state \<Rightarrow> inbound list \<Rightarrow> bot_state" where
  "run_bot cfg client validate_message invoked st [] = st"
| "run_bot cfg client validate_message invoked st (ev # evs) =
     run_bot cfg client validate_message invoked
       (fst (on_message cfg client validate_message invoked st ev)) evs"

text \<open>The context stored for an identity: empty when it has no entry.\<close>

definition history_of :: "bot_state \<Rightarrow> int \<Rightarrow> pyobj list" where
  "history_of st u = (case user_contexts st u of None \<Rightarrow> [] | Some h \<Rightarrow> h)"

text \<open>The bound on every stored context: one entry above the cap.\<close>

definition histories_bounded :: "BotConfig \<Rightarrow> bot_state \<Rightarrow> bool" where
  "histories_bounded cfg st \<longleftrightarrow>
     (\<forall>u. int (length (history_of st u)) \<le> 2 * max_context_length cfg + 1)"

section \<open>Properties of the rate limiter\<close>

subsection \<open>Eviction and the effect of each operation on one queue\<close>

lemma evict_dropWhile: "evict c q = dropWhile (\<lambda>t. t < c) q"
  by (induction q) auto

lemma evict_split: "\<exists>d. q = d @ evict c q \<and> (\<forall>x\<in>set d. x < c)"
proof -
  have "q = takeWhile (\<lambda>t. t < c) q @ evict c q"
    by (simp add: evict_dropWhile)
  moreover have "\<forall>x\<in>set (takeWhile (\<lambda>t. t < c) q). x < c"
    by (auto dest: set_takeWhileD)
  ultimately show ?thesis by blast
qed

lemma length_evict: "length (evict c q) \<le> length q"
  by (induction q) (auto simp: le_SucI)

lemma length_evict_int: "int (length q) \<le> n \<Longrightarrow> int (length (evict c q)) \<le> n"
  using length_evict [of c q] by linarith

lemma evict_idem: "evict c (evict c q) = evict c q"
  by (induction q) auto

text \<open>On a queue in ascending order, eviction keeps exactly the times inside the window.\<close>

lemma sorted_evict_filter: "sorted q \<Longrightarrow> evict c q = filter (\<lambda>x. c \<le> x) q"
proof (induction q)
  case Nil
  then show ?case by simp
next
  case (Cons x q)
  show ?case
  proof (cases "x < c")
    case True
    then show ?thesis using Cons by simp
  next
    case False
    then have "\<forall>y\<in>set (x # q). c \<le> y" using Cons.prems by auto
    then have "filter (\<lambda>x. c \<le> x) (x # q) = x # q" by (simp only: filter_True)
    with False show ?thesis by simp
  qed
qed

lemma queue_of_cleanup:
  "queue_of (cleanup_if_needed s t) u = queue_of s u \<or>
   queue_of (cleanup_if_needed s t) u = evict (t - real_of_int (time_window s)) (queue_of s u)"
  by (auto simp: cleanup_if_needed_def queue_of_def Let_def split: option.splits)

lemma cleanup_params:
  "max_requests (cleanup_if_needed s t) = max_requests s"
  "time_window (cleanup_if_needed s t) = time_window s"
  by (simp_all add: cleanup_if_needed_def Let_def)

lemma is_allowed_params:
  "max_requests (snd (is_allowed s v t)) = max_requests s"
  "time_window (snd (is_allowed s v t)) = time_window s"
  by (simp_all add: is_allowed_def Let_def cleanup_params split: prod.splits)

lemma is_allowed_other:
  "v \<noteq> u \<Longrightarrow> queue_of (snd (is_allowed s v t)) u = queue_of (cleanup_if_needed s t) u"
  by (auto simp: is_allowed_def Let_def queue_of_def dd_getitem_def
           split: prod.splits option.splits)

lemma is_allowed_same:
  "queue_of (snd (is_allowed s u t)) u =
     (let q = evict (t - real_of_int (time_window s)) (queue_of (cleanup_if_needed s t) u)
      in if fst (is_allowed s u t) then q @ [t] else q)"
  by (auto simp: is_allowed_def Let_def queue_of_def dd_getitem_def cleanup_params
           split: prod.splits option.splits)

lemma is_allowed_true_iff:
  "fst (is_allowed s u t) \<longleftrightarrow>
     int (length (evict (t - real_of_int (time_window s)) (queue_of (cleanup_if_needed s t) u)))
       < max_requests s"
  by (auto simp: is_allowed_def Let_def queue_of_def dd_getitem_def cleanup_params
           split: prod.splits option.splits)

lemma evict_after_cleanup:
  "evict (t - real_of_int (time_window s)) (queue_of (cleanup_if_needed s t) u)
     = evict (t - real_of_int (time_window s)) (queue_of s u)"
  using queue_of_cleanup [of s t u] by (auto simp: evict_idem)

lemma is_allowed_mechanism:
  "(fst (is_allowed s u t) \<longleftrightarrow>
      int (length (evict (t - real_of_int (time_window s)) (queue_of s u))) < max_requests s)
   \<and> queue_of (snd (is_allowed s u t)) u =
       (if fst (is_allowed s u t)
        then evict (t - real_of_int (time_window s)) (queue_of s u) @ [t]
        else evict (t - real_of_int (time_window s)) (queue_of s u))"
  using is_allowed_true_iff [of s u t] is_allowed_same [of s u t]
  by (simp add: evict_after_cleanup Let_def)

lemma get_wait_time_state:
  "snd (get_wait_time s u t) =
     (if user_requests s u = None then s\<lparr> user_requests := (user_requests s)(u \<mapsto> []) \<rparr> else s)"
  by (auto simp: get_wait_time_def dd_getitem_def Let_def split: option.splits)

lemma get_wait_time_queue_of: "queue_of (snd (get_wait_time s u t)) v = queue_of s v"
  by (auto simp: get_wait_time_state queue_of_def)

lemma max_py_int: "max 0 (py_int x) = max 0 \<lfloor>x\<rfloor>"
proof (cases "0 \<le> x")
  case True
  then show ?thesis by (simp add: py_int_def)
next
  case False
  then have "\<lceil>x\<rceil> \<le> 0" and "\<lfloor>x\<rfloor> \<le> 0"
    by (simp_all add: ceiling_le_zero floor_le_zero less_imp_le)
  with False show ?thesis by (simp add: py_int_def)
qed

lemmas rl_defs = is_allowed_def get_wait_time_def cleanup_if_needed_def dd_getitem_def
  RateLimiter_init_def reset_user_def queue_of_def py_int_def Let_def

subsection \<open>The sliding window\<close>

text \<open>
  One call of \<^verbatim>\<open>is_allowed\<close> at time \<open>t\<close>: when the admission times so far are the
  stored queue of \<open>u\<close> behind a prefix of times older than \<open>t - time_window\<close>, so they are
  afterwards, and a queue that has just received \<open>t\<close> holds at most \<open>max_requests\<close>
  times.
\<close>

lemma is_allowed_step:
  assumes A: "A = pre @ queue_of s u"
    and pre: "\<forall>x\<in>set pre. x < t - real_of_int (time_window s)"
  shows "\<exists>pre'. A @ (if fst (is_allowed s v t) \<and> v = u then [t] else [])
                  = pre' @ queue_of (snd (is_allowed s v t)) u
               \<and> (\<forall>x\<in>set pre'. x < t - real_of_int (time_window s))
               \<and> (fst (is_allowed s v t) \<and> v = u \<longrightarrow>
                    int (length (queue_of (snd (is_allowed s v t)) u)) \<le> max_requests s)"
proof -
  let ?c = "t - real_of_int (time_window s)"
  let ?q1 = "queue_of (cleanup_if_needed s t) u"
  have "\<exists>d. queue_of s u = d @ ?q1 \<and> (\<forall>x\<in>set d. x < ?c)"
    using queue_of_cleanup [of s t u] evict_split [of "queue_of s u" ?c] by auto
  then obtain d where d: "queue_of s u = d @ ?q1" "\<forall>x\<in>set d. x < ?c" by blast
  show ?thesis
  proof (cases "v = u")
    case False
    then have "queue_of (snd (is_allowed s v t)) u = ?q1" by (rule is_allowed_other)
    with False A d pre show ?thesis
      by (intro exI [of _ "pre @ d"]) auto
  next
    case True
    obtain e where e: "?q1 = e @ evict ?c ?q1" "\<forall>x\<in>set e. x < ?c"
      using evict_split [of ?q1 ?c] by blast
    have same: "queue_of (snd (is_allowed s u t)) u =
        (if fst (is_allowed s u t) then evict ?c ?q1 @ [t] else evict ?c ?q1)"
      using is_allowed_same [of s u t] by (simp add: Let_def)
    have len: "fst (is_allowed s u t) \<Longrightarrow> int (length (evict ?c ?q1)) < max_requests s"
      using is_allowed_true_iff [of s u t] by simp
    have "A = (pre @ d @ e) @ evict ?c ?q1" using A d(1) e(1) by simp
    with True same len d(2) e(2) pre show ?thesis
      by (intro exI [of _ "pre @ d @ e"]) auto
  qed
qed

lemma window_ok_snoc:
  assumes ok: "window_ok mr W A"
    and A': "A @ [t] = pre @ q"
    and pre: "\<forall>x\<in>set pre. x < t - W"
    and len: "int (length q) \<le> mr"
  shows "window_ok mr W (A @ [t])"
  unfolding window_ok_def
proof
  fix a
  let ?P = "\<lambda>x. a \<le> x \<and> x \<le> a + W"
  show "int (length (filter ?P (A @ [t]))) \<le> mr"
  proof (cases "a \<le> t \<and> t \<le> a + W")
    case False
    then have "filter ?P (A @ [t]) = filter ?P A" by auto
    with ok show ?thesis by (simp add: window_ok_def)
  next
    case True
    then have "\<forall>x\<in>set pre. \<not> ?P x" using pre by fastforce
    then have "filter ?P pre = []" by (simp add: filter_empty_conv)
    then have "filter ?P (A @ [t]) = filter ?P q"
      unfolding A' by simp
    then have "length (filter ?P (A @ [t])) \<le> length q"
      by (simp del: filter_append)
    then show ?thesis using len by linarith
  qed
qed

lemma admitted_Cons:
  "admitted s u ((v, t) # calls) =
     (if fst (is_allowed s v t) \<and> v = u then [t] else [])
       @ admitted (snd (is_allowed s v t)) u calls"
  by (simp add: case_prod_beta)

lemma admitted_window_ok:
  assumes "sorted (map snd calls)"
    and "A = pre @ queue_of s u"
    and "\<forall>x\<in>set pre. \<forall>c\<in>set calls. x < snd c - real_of_int (time_window s)"
    and "window_ok (max_requests s) (real_of_int (time_window s)) A"
  shows "window_ok (max_requests s) (real_of_int (time_window s)) (A @ admitted s u calls)"
  using assms
proof (induction calls arbitrary: s A pre)
  case Nil
  then show ?case by simp
next
  case (Cons c calls)
  obtain v t where c: "c = (v, t)" by (cases c)
  let ?W = "real_of_int (time_window s)"
  let ?s' = "snd (is_allowed s v t)"
  let ?new = "if fst (is_allowed s v t) \<and> v = u then [t] else []"
  have pre_t: "\<forall>x\<in>set pre. x < t - ?W" using Cons.prems(3) c by simp
  from is_allowed_step [OF Cons.prems(2) pre_t, of v]
  obtain pre' where p: "A @ ?new = pre' @ queue_of ?s' u"
      "\<forall>x\<in>set pre'. x < t - ?W"
      "fst (is_allowed s v t) \<and> v = u \<longrightarrow> int (length (queue_of ?s' u)) \<le> max_requests s"
    by blast
  have later: "\<forall>c'\<in>set calls. t \<le> snd c'" using Cons.prems(1) c by auto
  have ok': "window_ok (max_requests s) ?W (A @ ?new)"
  proof (cases "fst (is_allowed s v t) \<and> v = u")
    case True
    then have "A @ [t] = pre' @ queue_of ?s' u"
      and "int (length (queue_of ?s' u)) \<le> max_requests s"
      using p(1,3) by auto
    from window_ok_snoc [OF Cons.prems(4) this(1) p(2) this(2)] True
    show ?thesis by auto
  next
    case False
    then have "?new = []" by auto
    then show ?thesis using Cons.prems(4) by simp
  qed
  have par: "max_requests ?s' = max_requests s" "time_window ?s' = time_window s"
    by (simp_all add: is_allowed_params)
  have "window_ok (max_requests ?s') (real_of_int (time_window ?s'))
          ((A @ ?new) @ admitted ?s' u calls)"
  proof (rule Cons.IH [OF _ p(1)])
    show "sorted (map snd calls)" using Cons.prems(1) by simp
    show "\<forall>x\<in>set pre'. \<forall>c\<in>set calls. x < snd c - real_of_int (time_window ?s')"
      using p(2) later par by fastforce
    show "window_ok (max_requests ?s') (real_of_int (time_window ?s')) (A @ ?new)"
      using ok' par by simp
  qed
  then show ?case
    unfolding c admitted_Cons par by (simp only: append_assoc)
qed

text \<open>
  Claim C1.  A fresh limiter receives any sequence of \<^verbatim>\<open>is_allowed\<close> calls, from any
  identities, at clock readings that do not decrease.  Then for every identity \<open>u\<close>
  and every closed interval \<open>[a, a + time_window]\<close>, at most \<open>max_requests\<close> of the
  calls of \<open>u\<close> that returned true lie in the interval.  (A limit of no requests
  or more is assumed: with a negative \<open>max_requests\<close> nothing is admitted.)  In any
  state, a call at time \<open>t\<close> first evicts from the front of the queue of the identity
  the timestamps older than \<open>t - time_window\<close>; it returns true exactly when fewer
  than \<open>max_requests\<close> remain, and then records \<open>t\<close> at the end; otherwise it records
  nothing.
\<close>

theorem is_allowed_sliding_window:
  assumes "0 \<le> mr" and "sorted (map snd calls)"
  shows "int (length (filter (\<lambda>x. a \<le> x \<and> x \<le> a + real_of_int tw)
                        (admitted (RateLimiter_init mr tw t0) u calls))) \<le> mr
       \<and> (fst (is_allowed s u t) \<longleftrightarrow>
            int (length (evict (t - real_of_int (time_window s)) (queue_of s u)))
              < max_requests s)
       \<and> queue_of (snd (is_allowed s u t)) u =
           (if fst (is_allowed s u t)
            then evict (t - real_of_int (time_window s)) (queue_of s u) @ [t]
            else evict (t - real_of_int (time_window s)) (queue_of s u))"
proof -
  let ?s = "RateLimiter_init mr tw t0"
  have "window_ok (max_requests ?s) (real_of_int (time_window ?s)) ([] @ admitted ?s u calls)"
  proof (rule admitted_window_ok [OF assms(2), where pre = "[]"])
    show "[] = [] @ queue_of ?s u" by (simp add: queue_of_def RateLimiter_init_def)
    show "\<forall>x\<in>set []. \<forall>c\<in>set calls. x < snd c - real_of_int (time_window ?s)" by simp
    show "window_ok (max_requests ?s) (real_of_int (time_window ?s)) []"
      using assms(1) by (simp add: window_ok_def RateLimiter_init_def)
  qed
  then have "int (length (filter (\<lambda>x. a \<le> x \<and> x \<le> a + real_of_int tw)
                        (admitted (RateLimiter_init mr tw t0) u calls))) \<le> mr"
    by (simp add: window_ok_def RateLimiter_init_def)
  then show ?thesis using is_allowed_mechanism [of s u t] by blast
qed

theorem is_allowed_sliding_window_witness:
  "(0::int) \<le> 2
   \<and> sorted (map snd [(7::int, 0), (7, 1), (7, 2), (8, 3), (7, 61::real)])
   \<and> admitted (RateLimiter_init 2 60 0) 7 [(7, 0), (7, 1), (7, 2), (8, 3), (7, 61)] = [0, 1, 61]
   \<and> int (length (filter (\<lambda>x. 1 \<le> x \<and> x \<le> 1 + real_of_int 60)
                     (admitted (RateLimiter_init 2 60 0) 7
                        [(7, 0), (7, 1), (7, 2), (8, 3), (7, 61)]))) \<le> 2"
proof -
  have z: "(0::int) \<le> 2" by simp
  have srt: "sorted (map snd [(7::int, 0), (7, 1), (7, 2), (8, 3), (7, 61::real)])" by simp
  have adm: "admitted (RateLimiter_init 2 60 0) 7 [(7, 0), (7, 1), (7, 2), (8, 3), (7, 61)]
               = [0, 1, 61]"
    by (simp add: rl_defs)
  from is_allowed_sliding_window
         [where a = 1 and tw = 60 and ?t0.0 = 0 and u = 7 and s = "RateLimiter_init 2 60 0"
            and t = 0, OF z srt] z srt adm
  show ?thesis by blast
qed

subsection \<open>The wait time\<close>

text \<open>
  Claim C5, as written: \<^verbatim>\<open>get_wait_time\<close> leaves the state of the limiter as it was,
  also for an identity never seen before.  It does not: the lookup of an unseen
  identity in the \<^verbatim>\<open>defaultdict\<close> inserts an entry for it.
\<close>

theorem get_wait_time_read_only_counterexample:
  "snd (get_wait_time (RateLimiter_init 10 60 0) 7 0) \<noteq> RateLimiter_init 10 60 0
   \<and> user_requests (RateLimiter_init 10 60 0) 7 = None
   \<and> user_requests (snd (get_wait_time (RateLimiter_init 10 60 0) 7 0)) 7 = Some []"
proof -
  have before: "user_requests (RateLimiter_init 10 60 0) 7 = None"
    by (simp add: RateLimiter_init_def)
  have after: "user_requests (snd (get_wait_time (RateLimiter_init 10 60 0) 7 0)) 7 = Some []"
    by (simp add: rl_defs)
  have "snd (get_wait_time (RateLimiter_init 10 60 0) 7 0) \<noteq> RateLimiter_init 10 60 0"
  proof
    assume "snd (get_wait_time (RateLimiter_init 10 60 0) 7 0) = RateLimiter_init 10 60 0"
    then have "user_requests (snd (get_wait_time (RateLimiter_init 10 60 0) 7 0)) 7
             = user_requests (RateLimiter_init 10 60 0) 7"
      by simp
    with before after show False by simp
  qed
  with before after show ?thesis by simp
qed

text \<open>
  Claim C5, amended.  \<^verbatim>\<open>get_wait_time\<close> records no timestamp and evicts none: the
  timestamps held for every identity are the same before and after.  For an identity
  that has an entry the state is exactly as it was; for an identity without one the
  only change is a new entry with an empty queue.
\<close>

theorem get_wait_time_frame:
  "snd (get_wait_time s u t) =
     (if user_requests s u = None then s\<lparr> user_requests := (user_requests s)(u \<mapsto> []) \<rparr> else s)
   \<and> (\<forall>v. queue_of (snd (get_wait_time s u t)) v = queue_of s v)"
  using get_wait_time_state [of s u t] get_wait_time_queue_of [of s u t] by blast

text \<open>
  Claim C6, as written: at capacity the result is
  \<open>time_window - (now - oldest)\<close>, floored at 0.  The result is an integer, so the
  claim fails at a clock reading with a fraction: with timestamps 0 and 1, a limit
  of 2 and a window of 60, the call at 2.5 returns 57 and not 57.5.
\<close>

theorem get_wait_time_value_counterexample:
  "let s = snd (is_allowed (snd (is_allowed (RateLimiter_init 2 60 0) 7 0)) 7 1)
   in queue_of s 7 = [0, 1]
      \<and> \<not> int (length (queue_of s 7)) < max_requests s
      \<and> fst (get_wait_time s 7 (5 / 2)) = 57
      \<and> real_of_int (fst (get_wait_time s 7 (5 / 2)))
           \<noteq> max 0 (real_of_int (time_window s) - (5 / 2 - hd (queue_of s 7)))"
  by (simp add: rl_defs)

text \<open>
  Claim C6, amended.  \<^verbatim>\<open>get_wait_time\<close> returns 0 when the identity holds no
  timestamp or fewer than \<open>max_requests\<close>, and otherwise the whole seconds of
  \<open>time_window - (now - oldest)\<close> (the integer part), floored at 0.  With a limit of 2
  and a window of 60, the calls at 0 and 1 are allowed, the call at 2 is denied and
  the wait time at 2 is 58, and the call at 61 is allowed, the timestamp 0 having
  left the queue.
\<close>

theorem get_wait_time_value:
  "fst (get_wait_time s u now) =
     (if queue_of s u = [] \<or> int (length (queue_of s u)) < max_requests s then 0
      else max 0 \<lfloor>real_of_int (time_window s) - (now - hd (queue_of s u))\<rfloor>)
   \<and> (let s0 = RateLimiter_init 2 60 0;
           (a0, s1) = is_allowed s0 u 0;
           (a1, s2) = is_allowed s1 u 1;
           (a2, s3) = is_allowed s2 u 2;
           (w, s4) = get_wait_time s3 u 2;
           (a3, s5) = is_allowed s4 u 61
       in a0 \<and> a1 \<and> \<not> a2 \<and> w = 58 \<and> a3 \<and> queue_of s5 u = [1, 61])"
proof -
  have "fst (get_wait_time s u now) =
     (if queue_of s u = [] \<or> int (length (queue_of s u)) < max_requests s then 0
      else max 0 \<lfloor>real_of_int (time_window s) - (now - hd (queue_of s u))\<rfloor>)"
    by (auto simp: get_wait_time_def dd_getitem_def queue_of_def Let_def max_py_int
             split: option.splits)
  moreover have "(let s0 = RateLimiter_init 2 60 0;
           (a0, s1) = is_allowed s0 u 0;
           (a1, s2) = is_allowed s1 u 1;
           (a2, s3) = is_allowed s2 u 2;
           (w, s4) = get_wait_time s3 u 2;
           (a3, s5) = is_allowed s4 u 61
       in a0 \<and> a1 \<and> \<not> a2 \<and> w = 58 \<and> a3 \<and> queue_of s5 u = [1, 61])"
    by (simp add: rl_defs)
  ultimately show ?thesis by blast
qed

theorem get_wait_time_value_witness:
  "fst (get_wait_time
          (snd (is_allowed (snd (is_allowed (RateLimiter_init 2 60 0) 7 0)) 7 1)) 7 (5 / 2)) = 57
   \<and> fst (get_wait_time (RateLimiter_init 2 60 0) 7 (5 / 2)) = 0"
proof -
  let ?s = "snd (is_allowed (snd (is_allowed (RateLimiter_init 2 60 0) 7 0)) 7 1)"
  have q: "queue_of ?s 7 = [0, 1]" "max_requests ?s = 2" "time_window ?s = 60"
    by (simp_all add: rl_defs)
  have q0: "queue_of (RateLimiter_init 2 60 0) 7 = []"
    by (simp add: rl_defs)
  have fl: "\<lfloor>(60::real) - 5 / 2\<rfloor> = 57" by linarith
  from get_wait_time_value [of ?s 7 "5 / 2"] get_wait_time_value [of "RateLimiter_init 2 60 0" 7 "5 / 2"]
  show ?thesis by (simp add: q q0 fl)
qed

subsection \<open>The bound on the stored queues\<close>

lemma bounded_cleanup:
  assumes "queues_bounded s" shows "queues_bounded (cleanup_if_needed s t)"
  unfolding queues_bounded_def
proof
  fix u
  have "int (length (queue_of s u)) \<le> max_requests s"
    using assms by (simp add: queues_bounded_def)
  then show "int (length (queue_of (cleanup_if_needed s t) u))
               \<le> max_requests (cleanup_if_needed s t)"
    using queue_of_cleanup [of s t u] length_evict_int
    by (auto simp: cleanup_params)
qed

lemma bounded_is_allowed:
  assumes "queues_bounded s" shows "queues_bounded (snd (is_allowed s u t))"
  unfolding queues_bounded_def
proof
  fix v
  let ?s1 = "cleanup_if_needed s t"
  have b1: "int (length (queue_of ?s1 w)) \<le> max_requests s" for w
    using bounded_cleanup [OF assms, of t] by (simp add: queues_bounded_def cleanup_params)
  show "int (length (queue_of (snd (is_allowed s u t)) v))
          \<le> max_requests (snd (is_allowed s u t))"
  proof (cases "v = u")
    case False
    then show ?thesis using b1 [of v] by (simp add: is_allowed_other is_allowed_params)
  next
    case True
    have "int (length (evict (t - real_of_int (time_window s)) (queue_of ?s1 u)))
            \<le> max_requests s"
      using b1 [of u] by (rule length_evict_int)
    then show ?thesis
      using is_allowed_same [of s u t] is_allowed_true_iff [of s u t] True
      by (auto simp: Let_def is_allowed_params split: if_splits)
  qed
qed

lemma get_wait_time_max_requests: "max_requests (snd (get_wait_time s u t)) = max_requests s"
  by (simp add: get_wait_time_state)

lemma bounded_get_wait_time:
  "queues_bounded s \<Longrightarrow> queues_bounded (snd (get_wait_time s u t))"
  by (simp add: queues_bounded_def get_wait_time_queue_of get_wait_time_max_requests)

lemma bounded_reset_user:
  assumes "queues_bounded s" shows "queues_bounded (reset_user s u)"
  unfolding queues_bounded_def
proof
  fix v
  have "queue_of (reset_user s u) v = (if v = u then [] else queue_of s v)"
    by (auto simp: reset_user_def queue_of_def split: option.splits)
  moreover have "max_requests (reset_user s u) = max_requests s"
    by (simp add: reset_user_def)
  moreover have "0 \<le> max_requests s"
    using assms [unfolded queues_bounded_def, rule_format, of u] by linarith
  ultimately show "int (length (queue_of (reset_user s u) v)) \<le> max_requests (reset_user s u)"
    using assms by (simp add: queues_bounded_def)
qed

lemma apply_rl_op_max_requests: "max_requests (apply_rl_op s x) = max_requests s"
  by (cases x) (simp_all add: is_allowed_params cleanup_params reset_user_def get_wait_time_state)

lemma bounded_apply: "queues_bounded s \<Longrightarrow> queues_bounded (apply_rl_op s x)"
  by (cases x)
     (simp_all add: bounded_is_allowed bounded_get_wait_time bounded_reset_user bounded_cleanup)

lemma bounded_run: "queues_bounded s \<Longrightarrow> queues_bounded (run_rl_ops s ops)"
  by (induction ops arbitrary: s) (simp_all add: bounded_apply)

lemma run_max_requests: "max_requests (run_rl_ops s ops) = max_requests s"
  by (induction ops arbitrary: s) (simp_all add: apply_rl_op_max_requests)

text \<open>
  Claim C10.  From a fresh limiter, after any sequence of \<^verbatim>\<open>is_allowed\<close>,
  \<^verbatim>\<open>get_wait_time\<close>, \<^verbatim>\<open>reset_user\<close> and cleanup operations, at any clock readings,
  the queue stored for any identity holds at most \<open>max_requests\<close> timestamps.  (A
  limit of no requests or more is assumed: an entry holds no fewer than no
  timestamps.)
\<close>

theorem stored_queue_bounded:
  assumes "0 \<le> mr"
    and "user_requests (run_rl_ops (RateLimiter_init mr tw t0) ops) u = Some q"
  shows "int (length q) \<le> mr"
proof -
  let ?s = "run_rl_ops (RateLimiter_init mr tw t0) ops"
  have "queues_bounded (RateLimiter_init mr tw t0)"
    using assms(1) by (simp add: queues_bounded_def queue_of_def RateLimiter_init_def)
  then have "queues_bounded ?s" by (rule bounded_run)
  then have "int (length (queue_of ?s u)) \<le> max_requests ?s"
    by (simp add: queues_bounded_def)
  then show ?thesis
    using assms(2) by (simp add: queue_of_def run_max_requests RateLimiter_init_def)
qed

theorem stored_queue_bounded_witness:
  "(0::int) \<le> 2
   \<and> user_requests
        (run_rl_ops (RateLimiter_init 2 60 0)
           [IsAllowed 1 0, IsAllowed 1 1, IsAllowed 1 2, GetWaitTime 1 2, ResetUser 2,
            CleanupIfNeeded 3]) 1 = Some [0, 1]
   \<and> int (length [0, 1 :: real]) \<le> 2"
proof -
  have h: "user_requests
        (run_rl_ops (RateLimiter_init 2 60 0)
           [IsAllowed 1 0, IsAllowed 1 1, IsAllowed 1 2, GetWaitTime 1 2, ResetUser 2,
            CleanupIfNeeded 3]) 1 = Some [0, 1]"
    by (simp add: rl_defs)
  have z: "(0::int) \<le> 2" by simp
  from stored_queue_bounded [OF z h] h z show ?thesis by blast
qed

section \<open>Properties of the client\<close>

lemmas str_defs = py_lower_def py_strip_def is_space_def classify_def valid_roles_def
  user_message_def assistant_message_def

lemmas client_defs = get_chat_response_def no_effects_def transient_def backoff_def
  spec_backoff_def exhausted_message_def Let_def

subsection \<open>Validation\<close>

lemma validate_messages_head:
  "lacks_valid_role m \<or> content_blank m \<Longrightarrow> \<not> validate_messages (m # rest)"
  by (cases m)
     (auto simp: lacks_valid_role_def content_blank_def split: option.splits pyval.splits)

lemma validate_messages_tail: "validate_messages (m # rest) \<Longrightarrow> validate_messages rest"
  by (cases m) (auto split: option.splits pyval.splits if_splits)

lemma validate_messages_rejects:
  "list_ex lacks_valid_role ms \<or> list_ex content_blank ms \<Longrightarrow> \<not> validate_messages ms"
proof (induction ms)
  case Nil
  then show ?case by simp
next
  case (Cons m ms)
  show ?case
  proof (cases "lacks_valid_role m \<or> content_blank m")
    case True
    then show ?thesis by (rule validate_messages_head)
  next
    case False
    then have "list_ex lacks_valid_role ms \<or> list_ex content_blank ms"
      using Cons.prems by auto
    then have "\<not> validate_messages ms" by (rule Cons.IH)
    then show ?thesis using validate_messages_tail by blast
  qed
qed

text \<open>
  Claim C9.  When the sequence is empty, or some entry has no role among system,
  user and assistant, or the content of some entry is empty after trimming,
  \<^verbatim>\<open>get_chat_response\<close> returns a failure with an empty text (the message says that
  no messages were provided, or that the format is invalid) and the completion
  endpoint is never called: no call, no sleep.
\<close>

theorem invalid_input_no_network:
  assumes "violates_preconditions messages"
  shows "get_chat_response c messages api =
           ((False, [], if messages = [] then ''No messages provided''
                        else ''Invalid message format''),
            \<lparr> api_calls = 0, sleeps = [] \<rparr>)"
proof (cases "messages = []")
  case True
  then show ?thesis by (simp add: get_chat_response_def no_effects_def)
next
  case False
  then have "\<not> validate_messages messages"
    using assms validate_messages_rejects by (simp add: violates_preconditions_def)
  with False show ?thesis by (simp add: get_chat_response_def no_effects_def)
qed

theorem invalid_input_no_network_witness:
  "(let c = \<lparr> model = ''gpt-4o-mini'', max_tokens = 150, temperature = 7 / 10,
               max_retries = 3, retry_delay = 1 \<rparr>;
        api = (\<lambda>j::nat. Content ''never asked'')
    in violates_preconditions []
       \<and> violates_preconditions [Dict [(''content'', Str ''hi'')]]
       \<and> violates_preconditions
            [user_message ''hi'', Dict [(''role'', Str ''admin''), (''content'', Str ''hi'')]]
       \<and> violates_preconditions [user_message ''hi'', user_message ''   '']
       \<and> violates_preconditions [user_message [CHR 0xA0, CHR 0x09, CHR 0x85]]
       \<and> get_chat_response c [] api
            = ((False, [], ''No messages provided''), \<lparr> api_calls = 0, sleeps = [] \<rparr>)
       \<and> get_chat_response c [Dict [(''content'', Str ''hi'')]] api
            = ((False, [], ''Invalid message format''), \<lparr> api_calls = 0, sleeps = [] \<rparr>)
       \<and> get_chat_response c [user_message ''hi'', user_message ''   ''] api
            = ((False, [], ''Invalid message format''), \<lparr> api_calls = 0, sleeps = [] \<rparr>)
       \<and> get_chat_response c [user_message [CHR 0xA0, CHR 0x09, CHR 0x85]] api
            = ((False, [], ''Invalid message format''), \<lparr> api_calls = 0, sleeps = [] \<rparr>))"
proof -
  let ?c = "\<lparr> model = ''gpt-4o-mini'', max_tokens = 150, temperature = 7 / 10,
               max_retries = 3, retry_delay = 1 \<rparr>"
  let ?api = "\<lambda>j::nat. Content ''never asked''"
  have v: "violates_preconditions []"
    "violates_preconditions [Dict [(''content'', Str ''hi'')]]"
    "violates_preconditions
       [user_message ''hi'', Dict [(''role'', Str ''admin''), (''content'', Str ''hi'')]]"
    "violates_preconditions [user_message ''hi'', user_message ''   '']"
    "violates_preconditions [user_message [CHR 0xA0, CHR 0x09, CHR 0x85]]"
    by (simp_all add: violates_preconditions_def lacks_valid_role_def content_blank_def str_defs)
  from invalid_input_no_network [OF v(1), of ?c ?api]
       invalid_input_no_network [OF v(2), of ?c ?api]
       invalid_input_no_network [OF v(4), of ?c ?api]
       invalid_input_no_network [OF v(5), of ?c ?api] v
  show ?thesis by simp
qed

subsection \<open>The retry loop\<close>

lemma retry_loop_continue:
  assumes "api (api_calls eff) = Raises e" and "transient (classify e)"
    and "int attempt < max_retries c - 1"
  shows "retry_loop c api (attempt # rest) eff =
           retry_loop c api rest
             (eff\<lparr> api_calls := api_calls eff + 1,
                   sleeps := sleeps eff @ [backoff c (classify e) attempt] \<rparr>)"
  using assms by (cases "classify e") (simp_all add: transient_def backoff_def Let_def)

lemma retry_loop_exhausted:
  assumes "api (api_calls eff) = Raises e" and "transient (classify e)"
    and "\<not> int attempt < max_retries c - 1"
  shows "retry_loop c api (attempt # rest) eff =
           ((False, [], exhausted_message (classify e)),
            eff\<lparr> api_calls := api_calls eff + 1 \<rparr>)"
  using assms by (cases "classify e") (simp_all add: transient_def exhausted_message_def Let_def)

lemma retry_loop_terminal:
  assumes "api (api_calls eff) = Raises e"
    and "classify e = InvalidRequest \<or> classify e = Authentication"
  shows "retry_loop c api (attempt # rest) eff =
           ((False, [], if classify e = InvalidRequest then ''Invalid request to AI service''
                        else ''Authentication failed''),
            eff\<lparr> api_calls := api_calls eff + 1 \<rparr>)"
  using assms by (auto simp: Let_def)

lemma retry_loop_sleeps_prefix:
  "\<exists>ys. sleeps (snd (retry_loop c api atts eff)) = sleeps eff @ ys"
proof (induction atts arbitrary: eff)
  case Nil
  then show ?case by simp
next
  case (Cons a atts)
  show ?case
  proof (cases "api (api_calls eff)")
    case (Content body)
    then show ?thesis by (simp add: Let_def)
  next
    case (Raises e)
    show ?thesis
    proof (cases "transient (classify e) \<and> int a < max_retries c - 1")
      case True
      then have "retry_loop c api (a # atts) eff =
           retry_loop c api atts
             (eff\<lparr> api_calls := api_calls eff + 1,
                   sleeps := sleeps eff @ [backoff c (classify e) a] \<rparr>)"
        using Raises by (intro retry_loop_continue) simp_all
      then show ?thesis
        using Cons.IH [of "eff\<lparr> api_calls := api_calls eff + 1,
               sleeps := sleeps eff @ [backoff c (classify e) a] \<rparr>"]
        by auto
    next
      case False
      then show ?thesis using Raises
        by (cases "classify e") (simp_all add: transient_def Let_def)
    qed
  qed
qed

text \<open>The first m attempts fail with transient errors and are all retried.\<close>

lemma retry_loop_prefix:
  assumes "\<forall>j<m. api j = Raises (err j) \<and> transient (classify (err j))"
    and "int m \<le> max_retries c - 1" and "m \<le> N"
  shows "k \<le> m \<Longrightarrow> api_calls eff = k \<Longrightarrow>
         retry_loop c api [k..<N] eff =
         retry_loop c api [m..<N]
           (eff\<lparr> api_calls := m,
                 sleeps := sleeps eff @ map (\<lambda>j. backoff c (classify (err j)) j) [k..<m] \<rparr>)"
proof (induction "m - k" arbitrary: k eff)
  case 0
  then show ?case by (cases eff) simp
next
  case (Suc d)
  then have km: "k < m" by linarith
  then have kN: "k < N" using assms(3) by linarith
  have f: "api (api_calls eff) = Raises (err k)" "transient (classify (err k))"
    using assms(1) km Suc.prems(2) by simp_all
  have lt: "int k < max_retries c - 1" using km assms(2) by linarith
  let ?eff' = "eff\<lparr> api_calls := api_calls eff + 1,
               sleeps := sleeps eff @ [backoff c (classify (err k)) k] \<rparr>"
  have "retry_loop c api [k..<N] eff = retry_loop c api (k # [Suc k..<N]) eff"
    using kN by (simp add: upt_conv_Cons)
  also have "\<dots> = retry_loop c api [Suc k..<N] ?eff'"
    using f lt by (rule retry_loop_continue)
  also have "\<dots> = retry_loop c api [m..<N]
           (?eff'\<lparr> api_calls := m,
             sleeps := sleeps ?eff' @ map (\<lambda>j. backoff c (classify (err j)) j) [Suc k..<m] \<rparr>)"
  proof (rule Suc.hyps(1))
    show "d = m - Suc k" using Suc.hyps(2) by linarith
    show "Suc k \<le> m" using km by simp
    show "api_calls ?eff' = Suc k" using Suc.prems(2) by simp
  qed
  finally show ?case using km Suc.prems(2) by (simp add: upt_conv_Cons)
qed

lemma retry_loop_calls:
  "api_calls eff + (if atts = [] then 0 else 1) \<le> api_calls (snd (retry_loop c api atts eff))"
proof (induction atts arbitrary: eff)
  case Nil
  then show ?case by simp
next
  case (Cons a atts)
  let ?eff1 = "eff\<lparr> api_calls := api_calls eff + 1 \<rparr>"
  show ?case
  proof (cases "api (api_calls eff)")
    case (Content body)
    then show ?thesis by (simp add: Let_def)
  next
    case (Raises e)
    show ?thesis
    proof (cases "transient (classify e) \<and> int a < max_retries c - 1")
      case True
      then have "retry_loop c api (a # atts) eff =
           retry_loop c api atts
             (eff\<lparr> api_calls := api_calls eff + 1,
                   sleeps := sleeps eff @ [backoff c (classify e) a] \<rparr>)"
        using Raises by (intro retry_loop_continue) simp_all
      then show ?thesis
        using Cons.IH [of "eff\<lparr> api_calls := api_calls eff + 1,
               sleeps := sleeps eff @ [backoff c (classify e) a] \<rparr>"]
        by (auto split: if_splits)
    next
      case False
      then show ?thesis using Raises
        by (cases "classify e") (simp_all add: transient_def Let_def)
    qed
  qed
qed

lemma backoff_spec: "backoff c k j = spec_backoff (retry_delay c) k (j + 1)"
  by (simp add: backoff_def spec_backoff_def algebra_simps)

lemma classify_examples:
  "classify ''Rate limit reached'' = RateLimit"
  "classify ''Request timed out'' = Timeout"
  "classify ''Connection reset by peer'' = Other"
  "classify ''Incorrect API key provided (401)'' = Authentication"
  "classify ''400 Bad Request'' = InvalidRequest"
  by (simp_all add: str_defs)

subsection \<open>Exhausted retries\<close>

text \<open>
  Claim C4, as written: when every attempt fails with a transient class, the result
  is the same failure whatever the class.  It is not: three attempts that all fail
  with a rate-limit error and three that all fail with a timeout return different
  failures, each after three calls.
\<close>

theorem all_retries_exhausted_counterexample:
  "(let c = \<lparr> model = ''gpt-4o-mini'', max_tokens = 150, temperature = 7 / 10,
               max_retries = 3, retry_delay = 1 \<rparr>;
        r1 = get_chat_response c [user_message ''hi''] (\<lambda>_. Raises ''Rate limit reached'');
        r2 = get_chat_response c [user_message ''hi''] (\<lambda>_. Raises ''Request timed out'')
    in classify ''Rate limit reached'' = RateLimit
       \<and> classify ''Request timed out'' = Timeout
       \<and> r1 = ((False, [], ''Rate limit exceeded. Please try again later.''),
                \<lparr> api_calls = 3, sleeps = [1, 2] \<rparr>)
       \<and> r2 = ((False, [], ''Request timed out. Please try again.''),
                \<lparr> api_calls = 3, sleeps = [2, 4] \<rparr>)
       \<and> fst r1 \<noteq> fst r2)"
  by (simp add: client_defs str_defs upt_rec)

text \<open>
  Claim C4, amended.  When the messages are valid and every one of the
  \<open>max_retries\<close> attempts (at least one) fails with a transient class (rate limit,
  timeout or unclassified), \<^verbatim>\<open>get_chat_response\<close> returns a failure with an empty
  text after exactly \<open>max_retries\<close> calls, and the error message is the one of the
  class of the last attempt: the rate-limit message, the timeout message, or the
  message that the service is temporarily unavailable for an unclassified error.
\<close>

theorem all_retries_exhausted:
  assumes "messages \<noteq> []" and "validate_messages messages"
    and "0 < max_retries c"
    and "\<forall>j<nat (max_retries c). api j = Raises (err j) \<and> transient (classify (err j))"
  shows "get_chat_response c messages api =
           ((False, [], exhausted_message (classify (err (nat (max_retries c) - 1)))),
            \<lparr> api_calls = nat (max_retries c),
              sleeps = map (\<lambda>j. backoff c (classify (err j)) j) [0..<nat (max_retries c) - 1] \<rparr>)"
proof -
  let ?N = "nat (max_retries c)"
  let ?m = "?N - 1"
  let ?eff = "no_effects\<lparr> api_calls := ?m,
                 sleeps := sleeps no_effects @ map (\<lambda>j. backoff c (classify (err j)) j) [0..<?m] \<rparr>"
  have N: "0 < ?N" using assms(3) by simp
  have g: "get_chat_response c messages api = retry_loop c api [0..<?N] no_effects"
    using assms(1,2) by (simp add: get_chat_response_def)
  have "retry_loop c api [0..<?N] no_effects = retry_loop c api [?m..<?N] ?eff"
    using assms(3,4) N
    by (intro retry_loop_prefix [where err = err]) (simp_all add: no_effects_def)
  moreover have "[?m..<?N] = [?m]" using N by (simp add: upt_conv_Cons)
  moreover have "retry_loop c api [?m] ?eff =
           ((False, [], exhausted_message (classify (err ?m))),
            ?eff\<lparr> api_calls := api_calls ?eff + 1 \<rparr>)"
    using assms(3,4) N by (intro retry_loop_exhausted) simp_all
  ultimately show ?thesis using g N by (simp add: no_effects_def)
qed

theorem all_retries_exhausted_witness:
  "(let c = \<lparr> model = ''gpt-4o-mini'', max_tokens = 150, temperature = 7 / 10,
               max_retries = 3, retry_delay = 1 \<rparr>;
        err = (\<lambda>j::nat. if j = 0 then ''Rate limit reached''
                        else if j = 1 then ''Request timed out''
                        else ''Connection reset by peer'')
    in OpenAIClient_init ''sk-test'' ''gpt-4o-mini'' 150 (7 / 10) = Inr c
       \<and> validate_messages [user_message ''hi'']
       \<and> (0::int) < 3
       \<and> transient (classify (err 0)) \<and> transient (classify (err 1))
       \<and> transient (classify (err 2))
       \<and> get_chat_response c [user_message ''hi''] (\<lambda>j. Raises (err j))
            = ((False, [], ''AI service temporarily unavailable''),
               \<lparr> api_calls = 3, sleeps = [1, 4] \<rparr>))"
proof -
  let ?c = "\<lparr> model = ''gpt-4o-mini'', max_tokens = 150, temperature = 7 / 10,
               max_retries = 3, retry_delay = 1 \<rparr>"
  let ?err = "\<lambda>j::nat. if j = 0 then ''Rate limit reached''
                        else if j = 1 then ''Request timed out''
                        else ''Connection reset by peer''"
  have ne: "[user_message ''hi''] \<noteq> []" by simp
  have v: "validate_messages [user_message ''hi'']" by (simp add: str_defs)
  have r: "0 < max_retries ?c" by simp
  have t: "transient (classify ''Rate limit reached'')"
    "transient (classify ''Request timed out'')"
    "transient (classify ''Connection reset by peer'')"
    by (simp_all add: classify_examples transient_def)
  have f: "\<forall>j<nat (max_retries ?c). (\<lambda>j. Raises (?err j)) j = Raises (?err j)
             \<and> transient (classify (?err j))"
    using t by simp
  have i: "OpenAIClient_init ''sk-test'' ''gpt-4o-mini'' 150 (7 / 10) = Inr ?c"
    by (simp add: OpenAIClient_init_def)
  from all_retries_exhausted [OF ne v r f] i v t
  show ?thesis
    by (simp add: classify_examples exhausted_message_def backoff_def upt_rec)
qed

subsection \<open>The backoff schedule\<close>

text \<open>
  Claim C7.  The messages are valid and the attempts 1 to \<open>n\<close> all fail with a
  transient class, where \<open>n\<close> is below \<open>max_retries\<close>.  Then the handler sleeps after
  each of them and goes on to the next attempt, and the delay after the failing
  attempt number \<open>a\<close> is \<open>retry_delay \<times> a\<close> for a rate-limit or an unclassified
  error and \<open>2 \<times> retry_delay \<times> a\<close> for a timeout: the first \<open>n\<close> arguments of
  \<^verbatim>\<open>time.sleep\<close> are the schedule of the specification.
\<close>

theorem linear_backoff_schedule:
  assumes "messages \<noteq> []" and "validate_messages messages"
    and "int n < max_retries c"
    and "\<forall>j<n. api j = Raises (err j) \<and> transient (classify (err j))"
  shows "take n (sleeps (snd (get_chat_response c messages api)))
           = map (\<lambda>j. spec_backoff (retry_delay c) (classify (err j)) (j + 1)) [0..<n]
         \<and> n < api_calls (snd (get_chat_response c messages api))"
proof -
  let ?N = "nat (max_retries c)"
  let ?eff = "no_effects\<lparr> api_calls := n,
                 sleeps := sleeps no_effects @ map (\<lambda>j. backoff c (classify (err j)) j) [0..<n] \<rparr>"
  have nN: "n < ?N" using assms(3) by linarith
  have g: "get_chat_response c messages api = retry_loop c api [0..<?N] no_effects"
    using assms(1,2) by (simp add: get_chat_response_def)
  have "retry_loop c api [0..<?N] no_effects = retry_loop c api [n..<?N] ?eff"
    using assms(3,4) nN
    by (intro retry_loop_prefix [where err = err]) (simp_all add: no_effects_def)
  with g have r: "get_chat_response c messages api = retry_loop c api [n..<?N] ?eff" by simp
  obtain ys where "sleeps (snd (retry_loop c api [n..<?N] ?eff)) = sleeps ?eff @ ys"
    using retry_loop_sleeps_prefix by blast
  then have "take n (sleeps (snd (get_chat_response c messages api)))
               = map (\<lambda>j. backoff c (classify (err j)) j) [0..<n]"
    using r by (simp add: no_effects_def)
  moreover have "n < api_calls (snd (get_chat_response c messages api))"
    using retry_loop_calls [of ?eff "[n..<?N]" c api] nN r by (auto split: if_splits)
  ultimately show ?thesis by (simp add: backoff_spec)
qed

theorem linear_backoff_schedule_witness:
  "(let c = \<lparr> model = ''gpt-4o-mini'', max_tokens = 150, temperature = 7 / 10,
               max_retries = 3, retry_delay = 1 \<rparr>;
        err = (\<lambda>j::nat. if j = 0 then ''Rate limit reached'' else ''Request timed out'');
        api = (\<lambda>j::nat. if j < 2 then Raises (err j) else Content ''hello'')
    in validate_messages [user_message ''hi'']
       \<and> int 2 < max_retries c
       \<and> transient (classify (err 0)) \<and> transient (classify (err 1))
       \<and> take 2 (sleeps (snd (get_chat_response c [user_message ''hi''] api))) = [1, 4]
       \<and> 2 < api_calls (snd (get_chat_response c [user_message ''hi''] api))
       \<and> get_chat_response c [user_message ''hi''] api
            = ((True, ''hello'', []), \<lparr> api_calls = 3, sleeps = [1, 4] \<rparr>))"
proof -
  let ?c = "\<lparr> model = ''gpt-4o-mini'', max_tokens = 150, temperature = 7 / 10,
               max_retries = 3, retry_delay = 1 \<rparr>"
  let ?err = "\<lambda>j::nat. if j = 0 then ''Rate limit reached'' else ''Request timed out''"
  let ?api = "\<lambda>j::nat. if j < 2 then Raises (?err j) else Content ''hello''"
  have ne: "[user_message ''hi''] \<noteq> []" by simp
  have v: "validate_messages [user_message ''hi'']" by (simp add: str_defs)
  have r: "int 2 < max_retries ?c" by simp
  have t: "transient (classify ''Rate limit reached'')"
    "transient (classify ''Request timed out'')"
    by (simp_all add: classify_examples transient_def)
  have f: "\<forall>j<2. ?api j = Raises (?err j) \<and> transient (classify (?err j))"
    using t by simp
  have g: "get_chat_response ?c [user_message ''hi''] ?api
            = ((True, ''hello'', []), \<lparr> api_calls = 3, sleeps = [1, 4] \<rparr>)"
    by (simp add: client_defs str_defs upt_rec)
  from linear_backoff_schedule [OF ne v r f] v t g
  show ?thesis by simp
qed

subsection \<open>Terminal errors\<close>

text \<open>
  Claim C8.  When the messages are valid and the first attempt fails with an error
  that the handler classifies as an invalid request or as an authentication
  failure, \<^verbatim>\<open>get_chat_response\<close> returns the failure of that class at once: one
  call of the endpoint, no sleep, no further attempt.  An authentication error gives
  the authentication failure after exactly one call.
\<close>

theorem terminal_error_no_retry:
  assumes "messages \<noteq> []" and "validate_messages messages"
    and "0 < max_retries c"
    and "api 0 = Raises e"
    and "classify e = InvalidRequest \<or> classify e = Authentication"
  shows "get_chat_response c messages api =
           ((False, [], if classify e = InvalidRequest then ''Invalid request to AI service''
                        else ''Authentication failed''),
            \<lparr> api_calls = 1, sleeps = [] \<rparr>)"
proof -
  have "[0..<nat (max_retries c)] = 0 # [1..<nat (max_retries c)]"
    using assms(3) by (simp add: upt_conv_Cons)
  then have "get_chat_response c messages api
               = retry_loop c api (0 # [1..<nat (max_retries c)]) no_effects"
    using assms(1,2) by (simp add: get_chat_response_def)
  also have "\<dots> = ((False, [], if classify e = InvalidRequest then ''Invalid request to AI service''
                        else ''Authentication failed''),
            no_effects\<lparr> api_calls := api_calls no_effects + 1 \<rparr>)"
    using assms(4,5) by (intro retry_loop_terminal) (simp_all add: no_effects_def)
  finally show ?thesis by (simp add: no_effects_def)
qed

theorem terminal_error_no_retry_witness:
  "(let c = \<lparr> model = ''gpt-4o-mini'', max_tokens = 150, temperature = 7 / 10,
               max_retries = 3, retry_delay = 1 \<rparr>
    in validate_messages [user_message ''hi'']
       \<and> classify ''Incorrect API key provided (401)'' = Authentication
       \<and> classify ''400 Bad Request'' = InvalidRequest
       \<and> get_chat_response c [user_message ''hi'']
            (\<lambda>j. if j = 0 then Raises ''Incorrect API key provided (401)'' else Content ''late'')
            = ((False, [], ''Authentication failed''), \<lparr> api_calls = 1, sleeps = [] \<rparr>)
       \<and> get_chat_response c [user_message ''hi''] (\<lambda>j. Raises ''400 Bad Request'')
            = ((False, [], ''Invalid request to AI service''), \<lparr> api_calls = 1, sleeps = [] \<rparr>))"
proof -
  let ?c = "\<lparr> model = ''gpt-4o-mini'', max_tokens = 150, temperature = 7 / 10,
               max_retries = 3, retry_delay = 1 \<rparr>"
  let ?api = "\<lambda>j::nat. if j = 0 then Raises ''Incorrect API key provided (401)''
                        else Content ''late''"
  have ne: "[user_message ''hi''] \<noteq> []" by simp
  have v: "validate_messages [user_message ''hi'']" by (simp add: str_defs)
  have r: "0 < max_retries ?c" by simp
  have a1: "?api 0 = Raises ''Incorrect API key provided (401)''" by simp
  have a2: "(\<lambda>j::nat. Raises ''400 Bad Request'') 0 = Raises ''400 Bad Request''" by simp
  have k1: "classify ''Incorrect API key provided (401)'' = InvalidRequest
            \<or> classify ''Incorrect API key provided (401)'' = Authentication"
    by (simp add: classify_examples)
  have k2: "classify ''400 Bad Request'' = InvalidRequest
            \<or> classify ''400 Bad Request'' = Authentication"
    by (simp add: classify_examples)
  from terminal_error_no_retry
         [where api = ?api and e = "''Incorrect API key provided (401)''", OF ne v r a1 k1]
       terminal_error_no_retry
         [where api = "\<lambda>j. Raises ''400 Bad Request''" and e = "''400 Bad Request''",
          OF ne v r a2 k2] v
  show ?thesis by (simp add: classify_examples)
qed

section \<open>Properties of the message handler\<close>

lemmas bot_defs = on_message_def bot_init_def add_user_message_def add_ai_response_def
  py_last_def history_of_def process_commands_def clear_context_def

subsection \<open>The truncation\<close>

lemma add_user_message_drop:
  assumes "0 < max_context_length cfg"
  shows "add_user_message cfg h body =
           drop (length h + 1 - nat (2 * max_context_length cfg)) (h @ [user_message body])"
proof -
  let ?cap = "max_context_length cfg * 2"
  show ?thesis
  proof (cases "int (length (h @ [user_message body])) > ?cap")
    case True
    then show ?thesis using assms
      by (simp add: add_user_message_def py_last_def Let_def mult.commute)
  next
    case False
    then have "length h + 1 - nat (2 * max_context_length cfg) = 0" by simp
    with False show ?thesis
      by (simp add: add_user_message_def Let_def)
  qed
qed

lemma add_user_message_length:
  assumes "0 < max_context_length cfg"
  shows "int (length (add_user_message cfg h body)) \<le> 2 * max_context_length cfg"
  unfolding add_user_message_drop [OF assms] using assms by simp

subsection \<open>The stored contexts across handler runs\<close>

lemma history_of_upd:
  "history_of (st\<lparr> user_contexts := (user_contexts st)(u \<mapsto> h) \<rparr>) v =
     (if v = u then h else history_of st v)"
  by (simp add: history_of_def)

lemma history_of_rate_limiter [simp]:
  "history_of (st\<lparr> rate_limiter := rl \<rparr>) v = history_of st v"
  by (simp add: history_of_def)

text \<open>What one handler run does to the stored contexts.\<close>

lemma on_message_contexts:
  "user_contexts (fst (on_message cfg client validate invoked st ev)) = user_contexts st
   \<or> user_contexts (fst (on_message cfg client validate invoked st ev)) =
         (user_contexts st)(author_id (msg ev) \<mapsto> [])
   \<or> (\<exists>body. user_contexts (fst (on_message cfg client validate invoked st ev)) =
         (user_contexts st)(author_id (msg ev) \<mapsto>
            add_user_message cfg (history_of st (author_id (msg ev))) body))
   \<or> (\<exists>body reply. user_contexts (fst (on_message cfg client validate invoked st ev)) =
         (user_contexts st)(author_id (msg ev) \<mapsto>
            add_ai_response (add_user_message cfg (history_of st (author_id (msg ev))) body) reply))"
  unfolding on_message_def process_commands_def clear_context_def history_of_def Let_def
  by (auto split: prod.splits option.splits if_splits)

lemma bounded_on_message:
  assumes pos: "0 < max_context_length cfg" and b: "histories_bounded cfg st"
  shows "histories_bounded cfg (fst (on_message cfg client validate invoked st ev))"
  unfolding histories_bounded_def
proof
  fix u
  let ?st' = "fst (on_message cfg client validate invoked st ev)"
  let ?a = "author_id (msg ev)"
  have old: "int (length (history_of st u)) \<le> 2 * max_context_length cfg + 1"
    using b by (simp add: histories_bounded_def)
  have add: "int (length (add_user_message cfg h body)) \<le> 2 * max_context_length cfg" for h body
    using pos by (rule add_user_message_length)
  from on_message_contexts [of cfg client validate invoked st ev]
  consider (same) "user_contexts ?st' = user_contexts st"
    | (clear) "user_contexts ?st' = (user_contexts st)(?a \<mapsto> [])"
    | (user) body where "user_contexts ?st' =
         (user_contexts st)(?a \<mapsto> add_user_message cfg (history_of st ?a) body)"
    | (reply) body reply where "user_contexts ?st' =
         (user_contexts st)(?a \<mapsto>
            add_ai_response (add_user_message cfg (history_of st ?a) body) reply)"
    by (elim disjE exE) blast+
  then show "int (length (history_of ?st' u)) \<le> 2 * max_context_length cfg + 1"
  proof cases
    case same
    then show ?thesis using old by (simp add: history_of_def)
  next
    case clear
    then show ?thesis using old pos by (simp add: history_of_def)
  next
    case user
    then show ?thesis using old add [of "history_of st ?a" body]
      by (simp add: history_of_def)
  next
    case reply
    then show ?thesis using old add [of "history_of st ?a" body]
      by (simp add: history_of_def add_ai_response_def)
  qed
qed

lemma bounded_run_bot:
  "0 < max_context_length cfg \<Longrightarrow> histories_bounded cfg st \<Longrightarrow>
   histories_bounded cfg (run_bot cfg client validate invoked st evs)"
  by (induction evs arbitrary: st) (simp_all add: bounded_on_message)


text \<open>
  Claim C2, as written: the stored history never exceeds \<open>2 \<times> max_context_length\<close>
  entries, and with \<open>max_context_length = 1\<close> the turns A, B, C, D leave exactly
  \<open>[C, D]\<close>.  The truncation follows the append of the user message only; the reply
  is appended after it.  So the turns leave \<open>[B, C, D]\<close>, three entries under a cap
  of two.
\<close>

theorem conversation_history_bound_counterexample:
  "(let cfg = \<lparr> max_context_length = 1 \<rparr>;
        c = \<lparr> model = ''gpt-4o-mini'', max_tokens = 150, temperature = 7 / 10,
               max_retries = 3, retry_delay = 1 \<rparr>;
        validate = (\<lambda>s. (True, s, []));
        invoked = (\<lambda>s. None);
        ev1 = \<lparr> msg = \<lparr> author_id = 7, author_is_bot = False, content = ''A'' \<rparr>,
                t_allowed = 1, t_wait = 1, service = (\<lambda>j. Content ''B'') \<rparr>;
        ev2 = \<lparr> msg = \<lparr> author_id = 7, author_is_bot = False, content = ''C'' \<rparr>,
                t_allowed = 2, t_wait = 2, service = (\<lambda>j. Content ''D'') \<rparr>;
        stored = history_of (run_bot cfg c validate invoked (bot_init 0) [ev1, ev2]) 7
    in stored = [assistant_message ''B'', user_message ''C'', assistant_message ''D'']
       \<and> stored \<noteq> [user_message ''C'', assistant_message ''D'']
       \<and> \<not> int (length stored) \<le> 2 * max_context_length cfg)"
  by (simp add: bot_defs rl_defs client_defs str_defs upt_rec)

text \<open>
  Claim C2, amended.  With \<open>max_context_length\<close> at least 1 and the turns handled
  one after the other from an empty store, the history stored for any identity
  never exceeds \<open>2 \<times> max_context_length + 1\<close> entries, and right after the append of
  a user message (the history handed to the client) it never exceeds
  \<open>2 \<times> max_context_length\<close>.  On overflow the oldest entries go first and the
  order of the survivors is kept: the result is a suffix of the history with the
  new message at its end.  The reply is appended at the end without truncation.
  With \<open>max_context_length = 1\<close>, the user message A, the reply B, the user message C
  and the reply D leave exactly \<open>[B, C, D]\<close>.
\<close>

theorem conversation_history_bound:
  assumes "0 < max_context_length cfg"
  shows "int (length (history_of (run_bot cfg client validate invoked (bot_init t0) evs) u))
           \<le> 2 * max_context_length cfg + 1
       \<and> int (length (add_user_message cfg h body)) \<le> 2 * max_context_length cfg
       \<and> add_user_message cfg h body =
           drop (length h + 1 - nat (2 * max_context_length cfg)) (h @ [user_message body])
       \<and> add_ai_response h reply = h @ [assistant_message reply]
       \<and> (let cfg = \<lparr> max_context_length = 1 \<rparr>;
        c = \<lparr> model = ''gpt-4o-mini'', max_tokens = 150, temperature = 7 / 10,
               max_retries = 3, retry_delay = 1 \<rparr>;
        validate = (\<lambda>s. (True, s, []));
        invoked = (\<lambda>s. None);
        ev1 = \<lparr> msg = \<lparr> author_id = 7, author_is_bot = False, content = ''A'' \<rparr>,
                t_allowed = 1, t_wait = 1, service = (\<lambda>j. Content ''B'') \<rparr>;
        ev2 = \<lparr> msg = \<lparr> author_id = 7, author_is_bot = False, content = ''C'' \<rparr>,
                t_allowed = 2, t_wait = 2, service = (\<lambda>j. Content ''D'') \<rparr>
    in history_of (run_bot cfg c validate invoked (bot_init 0) [ev1, ev2]) 7
         = [assistant_message ''B'', user_message ''C'', assistant_message ''D''])"
proof -
  have scenario: "(let cfg = \<lparr> max_context_length = 1 \<rparr>;
        c = \<lparr> model = ''gpt-4o-mini'', max_tokens = 150, temperature = 7 / 10,
               max_retries = 3, retry_delay = 1 \<rparr>;
        validate = (\<lambda>s. (True, s, []));
        invoked = (\<lambda>s. None);
        ev1 = \<lparr> msg = \<lparr> author_id = 7, author_is_bot = False, content = ''A'' \<rparr>,
                t_allowed = 1, t_wait = 1, service = (\<lambda>j. Content ''B'') \<rparr>;
        ev2 = \<lparr> msg = \<lparr> author_id = 7, author_is_bot = False, content = ''C'' \<rparr>,
                t_allowed = 2, t_wait = 2, service = (\<lambda>j. Content ''D'') \<rparr>
    in history_of (run_bot cfg c validate invoked (bot_init 0) [ev1, ev2]) 7
         = [assistant_message ''B'', user_message ''C'', assistant_message ''D''])"
    by (simp add: bot_defs rl_defs client_defs str_defs upt_rec)
  have "histories_bounded cfg (bot_init t0)"
    using assms by (simp add: histories_bounded_def history_of_def bot_init_def)
  then have "histories_bounded cfg (run_bot cfg client validate invoked (bot_init t0) evs)"
    using assms by (intro bounded_run_bot)
  then have "int (length (history_of (run_bot cfg client validate invoked (bot_init t0) evs) u))
           \<le> 2 * max_context_length cfg + 1"
    by (simp add: histories_bounded_def)
  then show ?thesis
    using add_user_message_length [OF assms] add_user_message_drop [OF assms] scenario
    by (simp add: add_ai_response_def)
qed

theorem conversation_history_bound_witness:
  "(let cfg = \<lparr> max_context_length = 1 \<rparr>;
        c = \<lparr> model = ''gpt-4o-mini'', max_tokens = 150, temperature = 7 / 10,
               max_retries = 3, retry_delay = 1 \<rparr>;
        validate = (\<lambda>s. (True, s, []));
        invoked = (\<lambda>s. None);
        ev1 = \<lparr> msg = \<lparr> author_id = 7, author_is_bot = False, content = ''A'' \<rparr>,
                t_allowed = 1, t_wait = 1, service = (\<lambda>j. Content ''B'') \<rparr>;
        ev2 = \<lparr> msg = \<lparr> author_id = 7, author_is_bot = False, content = ''C'' \<rparr>,
                t_allowed = 2, t_wait = 2, service = (\<lambda>j. Content ''D'') \<rparr>;
        stored = history_of (run_bot cfg c validate invoked (bot_init 0) [ev1, ev2]) 7
    in 0 < max_context_length cfg
       \<and> length stored = 3
       \<and> int (length stored) \<le> 2 * max_context_length cfg + 1
       \<and> add_user_message cfg [user_message ''A'', assistant_message ''B''] ''C''
            = [assistant_message ''B'', user_message ''C''])"
proof -
  let ?cfg = "\<lparr> max_context_length = 1 \<rparr>"
  let ?c = "\<lparr> model = ''gpt-4o-mini'', max_tokens = 150, temperature = 7 / 10,
               max_retries = 3, retry_delay = 1 \<rparr>"
  let ?validate = "\<lambda>s::string. (True, s, [] :: string)"
  let ?invoked = "\<lambda>s::string. None :: string option"
  let ?ev1 = "\<lparr> msg = \<lparr> author_id = 7, author_is_bot = False, content = ''A'' \<rparr>,
                t_allowed = 1, t_wait = 1, service = (\<lambda>j. Content ''B'') \<rparr>"
  let ?ev2 = "\<lparr> msg = \<lparr> author_id = 7, author_is_bot = False, content = ''C'' \<rparr>,
                t_allowed = 2, t_wait = 2, service = (\<lambda>j. Content ''D'') \<rparr>"
  have p: "0 < max_context_length ?cfg" by simp
  have s: "history_of (run_bot ?cfg ?c ?validate ?invoked (bot_init 0) [?ev1, ?ev2]) 7
             = [assistant_message ''B'', user_message ''C'', assistant_message ''D'']"
    by (simp add: bot_defs rl_defs client_defs str_defs upt_rec)
  from conversation_history_bound [where cfg = ?cfg and client = ?c and validate = ?validate and invoked = ?invoked
              and ?t0.0 = 0 and evs = "[?ev1, ?ev2]" and u = 7
              and h = "[user_message ''A'', assistant_message ''B'']" and body = "''C''"
              and reply = "''D''", OF p] s
  show ?thesis by (simp add: Let_def)
qed

subsection \<open>A failed turn\<close>

text \<open>
  Claim C3, as written: after a turn whose API call fails, the history of the
  identity is what it was before the turn.  It is not: the user message was appended
  before the call and stays.  After a first successful turn, a second turn that fails
  on authentication leaves the history one entry longer.
\<close>

theorem failed_turn_history_unchanged_counterexample:
  "(let cfg = \<lparr> max_context_length = 10 \<rparr>;
        c = \<lparr> model = ''gpt-4o-mini'', max_tokens = 150, temperature = 7 / 10,
               max_retries = 3, retry_delay = 1 \<rparr>;
        validate = (\<lambda>s. (True, s, []));
        invoked = (\<lambda>s. None);
        ev1 = \<lparr> msg = \<lparr> author_id = 7, author_is_bot = False, content = ''A'' \<rparr>,
                t_allowed = 1, t_wait = 1, service = (\<lambda>j. Content ''B'') \<rparr>;
        ev2 = \<lparr> msg = \<lparr> author_id = 7, author_is_bot = False, content = ''C'' \<rparr>,
                t_allowed = 2, t_wait = 2,
                service = (\<lambda>j. Raises ''Incorrect API key provided (401)'') \<rparr>;
        st1 = fst (on_message cfg c validate invoked (bot_init 0) ev1);
        before = history_of st1 7;
        after = history_of (fst (on_message cfg c validate invoked st1 ev2)) 7
    in before = [user_message ''A'', assistant_message ''B'']
       \<and> fst (get_chat_response c (add_user_message cfg before ''C'') (service ev2))
            = (False, [], ''Authentication failed'')
       \<and> snd (on_message cfg c validate invoked st1 ev2) = [ErrorText ''Authentication failed'']
       \<and> after = [user_message ''A'', assistant_message ''B'', user_message ''C'']
       \<and> after \<noteq> before)"
  by (simp add: bot_defs rl_defs client_defs str_defs upt_rec)

text \<open>
  Claim C3, amended.  On a turn whose API call fails (with \<open>max_context_length\<close> at
  least 1), no reply is appended and the user message stays: after the handler
  returned, the history of the identity is the history before the turn followed by
  the user message of the turn, cut to its last \<open>2 \<times> max_context_length\<close> entries,
  which is the sequence that was passed to \<^verbatim>\<open>get_chat_response\<close>.  The contexts of
  the other identities are as they were, and the error text is what is sent.
\<close>

theorem failed_turn_keeps_user_message:
  assumes "0 < max_context_length cfg"
    and "\<not> author_is_bot (msg ev)"
    and "\<not> startswith (content (msg ev)) ''!''"
    and "fst (is_allowed (rate_limiter st) (author_id (msg ev)) (t_allowed ev))"
    and "validate (content (msg ev)) = (True, cleaned, verr)"
    and "\<not> fst (fst (get_chat_response client
                        (add_user_message cfg (history_of st (author_id (msg ev))) cleaned)
                        (service ev)))"
  shows "user_contexts (fst (on_message cfg client validate invoked st ev)) =
           (user_contexts st)(author_id (msg ev) \<mapsto>
              drop (length (history_of st (author_id (msg ev))) + 1
                      - nat (2 * max_context_length cfg))
                   (history_of st (author_id (msg ev)) @ [user_message cleaned]))
       \<and> snd (on_message cfg client validate invoked st ev) =
           [ErrorText (snd (snd (fst (get_chat_response client
                        (add_user_message cfg (history_of st (author_id (msg ev))) cleaned)
                        (service ev)))))]"
proof -
  let ?h = "add_user_message cfg (history_of st (author_id (msg ev))) cleaned"
  obtain ok rl where ia: "is_allowed (rate_limiter st) (author_id (msg ev)) (t_allowed ev) = (ok, rl)"
    by (cases "is_allowed (rate_limiter st) (author_id (msg ev)) (t_allowed ev)")
  with assms(4) have ok: "ok" by simp
  obtain success reply err eff where
    g: "get_chat_response client ?h (service ev) = ((success, reply, err), eff)"
    by (cases "get_chat_response client ?h (service ev)") auto
  with assms(6) have ns: "\<not> success" by simp
  have "on_message cfg client validate invoked st ev =
          (st\<lparr> rate_limiter := rl, user_contexts := (user_contexts st)(author_id (msg ev) \<mapsto> ?h) \<rparr>,
           [ErrorText err])"
    using assms(2,3,5) ia ok g ns
    by (simp add: on_message_def Let_def history_of_def)
  then show ?thesis
    using g add_user_message_drop [OF assms(1), of "history_of st (author_id (msg ev))" cleaned]
    by simp
qed

theorem failed_turn_keeps_user_message_witness:
  "(let cfg = \<lparr> max_context_length = 10 \<rparr>;
        c = \<lparr> model = ''gpt-4o-mini'', max_tokens = 150, temperature = 7 / 10,
               max_retries = 3, retry_delay = 1 \<rparr>;
        validate = (\<lambda>s. (True, s, []));
        invoked = (\<lambda>s. None);
        st = \<lparr> rate_limiter = RateLimiter_init 10 60 0,
               user_contexts = [7 \<mapsto> [user_message ''A'', assistant_message ''B'']] \<rparr>;
        ev = \<lparr> msg = \<lparr> author_id = 7, author_is_bot = False, content = ''C'' \<rparr>,
               t_allowed = 2, t_wait = 2,
               service = (\<lambda>j. Raises ''Incorrect API key provided (401)'') \<rparr>
    in 0 < max_context_length cfg
       \<and> \<not> author_is_bot (msg ev)
       \<and> \<not> startswith (content (msg ev)) ''!''
       \<and> fst (is_allowed (rate_limiter st) (author_id (msg ev)) (t_allowed ev))
       \<and> \<not> fst (fst (get_chat_response c
                         (add_user_message cfg (history_of st (author_id (msg ev))) ''C'')
                         (service ev)))
       \<and> user_contexts (fst (on_message cfg c validate invoked st ev)) 7
            = Some [user_message ''A'', assistant_message ''B'', user_message ''C'']
       \<and> snd (on_message cfg c validate invoked st ev) = [ErrorText ''Authentication failed''])"
proof -
  let ?cfg = "\<lparr> max_context_length = 10 \<rparr>"
  let ?c = "\<lparr> model = ''gpt-4o-mini'', max_tokens = 150, temperature = 7 / 10,
               max_retries = 3, retry_delay = 1 \<rparr>"
  let ?validate = "\<lambda>s::string. (True, s, [] :: string)"
  let ?invoked = "\<lambda>s::string. None :: string option"
  let ?st = "\<lparr> rate_limiter = RateLimiter_init 10 60 0,
               user_contexts = [7 \<mapsto> [user_message ''A'', assistant_message ''B'']] \<rparr>"
  let ?ev = "\<lparr> msg = \<lparr> author_id = 7, author_is_bot = False, content = ''C'' \<rparr>,
               t_allowed = 2, t_wait = 2,
               service = (\<lambda>j. Raises ''Incorrect API key provided (401)'') \<rparr>"
  have h1: "0 < max_context_length ?cfg" by simp
  have h2: "\<not> author_is_bot (msg ?ev)" by simp
  have h3: "\<not> startswith (content (msg ?ev)) ''!''" by simp
  have h4: "fst (is_allowed (rate_limiter ?st) (author_id (msg ?ev)) (t_allowed ?ev))"
    by (simp add: rl_defs)
  have h5: "?validate (content (msg ?ev)) = (True, ''C'', [])" by simp
  have g: "fst (get_chat_response ?c
                  (add_user_message ?cfg (history_of ?st (author_id (msg ?ev))) ''C'')
                  (service ?ev)) = (False, [], ''Authentication failed'')"
    by (simp add: bot_defs client_defs str_defs upt_rec)
  then have h6: "\<not> fst (fst (get_chat_response ?c
                  (add_user_message ?cfg (history_of ?st (author_id (msg ?ev))) ''C'')
                  (service ?ev)))"
    by simp
  from failed_turn_keeps_user_message [where cfg = ?cfg and client = ?c and validate = ?validate and invoked = ?invoked
              and st = ?st and ev = ?ev and cleaned = "''C''" and verr = "[]",
            OF h1 h2 h3 h4 h5 h6] h4 h6 g
  show ?thesis by (simp add: Let_def history_of_def)
qed

end
